theory Spec2Isabelle
  imports Complex_Main
begin

section \<open>JavaScript numbers\<close>

text \<open>
  The calculator computes with JavaScript numbers. A number is modelled as a finite
  value, one of the two infinities, or NaN. Finite values are idealised as reals: the
  rounding error of a single double-precision operation, overflow of finite operands
  and the sign of zero are not modelled. The non-finite cases follow IEEE 754 as
  ECMAScript prescribes them: NaN is absorbing, \<open>Infinity - Infinity\<close> and
  \<open>0 * Infinity\<close> are NaN, and every comparison with NaN is false.
\<close>

datatype jsnum = Fin real | PosInf | NegInf | NaN

instantiation jsnum :: "{plus, uminus, minus, times, inverse, ord}"
begin

fun plus_jsnum :: "jsnum \<Rightarrow> jsnum \<Rightarrow> jsnum" where
  "plus_jsnum NaN y = NaN"
| "plus_jsnum x NaN = NaN"
| "plus_jsnum (Fin a) (Fin b) = Fin (a + b)"
| "plus_jsnum (Fin a) PosInf = PosInf"
| "plus_jsnum (Fin a) NegInf = NegInf"
| "plus_jsnum PosInf (Fin b) = PosInf"
| "plus_jsnum NegInf (Fin b) = NegInf"
| "plus_jsnum PosInf PosInf = PosInf"
| "plus_jsnum NegInf NegInf = NegInf"
| "plus_jsnum PosInf NegInf = NaN"
| "plus_jsnum NegInf PosInf = NaN"

fun uminus_jsnum :: "jsnum \<Rightarrow> jsnum" where
  "uminus_jsnum (Fin a) = Fin (- a)"
| "uminus_jsnum PosInf = NegInf"
| "uminus_jsnum NegInf = PosInf"
| "uminus_jsnum NaN = NaN"

definition minus_jsnum :: "jsnum \<Rightarrow> jsnum \<Rightarrow> jsnum" where
  "minus_jsnum x y = x + (- y)"

text \<open>The sign of a non-NaN number, used for products and quotients with an infinity.\<close>

fun jsign :: "jsnum \<Rightarrow> int" where
  "jsign (Fin a) = (if a < 0 then - 1 else if a = 0 then 0 else 1)"
| "jsign PosInf = 1"
| "jsign NegInf = - 1"
| "jsign NaN = 0"

definition of_sign :: "int \<Rightarrow> jsnum" where
  "of_sign s = (if s = 0 then NaN else if 0 < s then PosInf else NegInf)"

fun times_jsnum :: "jsnum \<Rightarrow> jsnum \<Rightarrow> jsnum" where
  "times_jsnum NaN y = NaN"
| "times_jsnum x NaN = NaN"
| "times_jsnum (Fin a) (Fin b) = Fin (a * b)"
| "times_jsnum x y = of_sign (jsign x * jsign y)"

fun divide_jsnum :: "jsnum \<Rightarrow> jsnum \<Rightarrow> jsnum" where
  "divide_jsnum NaN y = NaN"
| "divide_jsnum x NaN = NaN"
| "divide_jsnum (Fin a) (Fin b) = (if b = 0 then of_sign (jsign (Fin a)) else Fin (a / b))"
| "divide_jsnum (Fin a) y = Fin 0"
| "divide_jsnum x (Fin b) = (if b < 0 then - x else x)"
| "divide_jsnum x y = NaN"

definition inverse_jsnum :: "jsnum \<Rightarrow> jsnum" where
  "inverse_jsnum x = divide (Fin 1) x"

fun less_jsnum :: "jsnum \<Rightarrow> jsnum \<Rightarrow> bool" where
  "less_jsnum NaN y = False"
| "less_jsnum x NaN = False"
| "less_jsnum (Fin a) (Fin b) = (a < b)"
| "less_jsnum x NegInf = False"
| "less_jsnum PosInf y = False"
| "less_jsnum NegInf y = True"
| "less_jsnum x PosInf = True"

fun less_eq_jsnum :: "jsnum \<Rightarrow> jsnum \<Rightarrow> bool" where
  "less_eq_jsnum NaN y = False"
| "less_eq_jsnum x NaN = False"
| "less_eq_jsnum (Fin a) (Fin b) = (a \<le> b)"
| "less_eq_jsnum NegInf y = True"
| "less_eq_jsnum x PosInf = True"
| "less_eq_jsnum x NegInf = False"
| "less_eq_jsnum PosInf y = False"

instance ..

end

text \<open>\<open>Math.max\<close> and \<open>Math.min\<close> of two arguments: NaN if either argument is NaN.\<close>

fun Math_max :: "jsnum \<Rightarrow> jsnum \<Rightarrow> jsnum" where
  "Math_max NaN y = NaN"
| "Math_max x NaN = NaN"
| "Math_max x y = (if x < y then y else x)"

fun Math_min :: "jsnum \<Rightarrow> jsnum \<Rightarrow> jsnum" where
  "Math_min NaN y = NaN"
| "Math_min x NaN = NaN"
| "Math_min x y = (if y < x then y else x)"

text \<open>\<open>Math.log10\<close>: NaN below zero, \<open>-Infinity\<close> at zero.\<close>

fun Math_log10 :: "jsnum \<Rightarrow> jsnum" where
  "Math_log10 (Fin a) = (if a < 0 then NaN else if a = 0 then NegInf else Fin (log 10 a))"
| "Math_log10 PosInf = PosInf"
| "Math_log10 NegInf = NaN"
| "Math_log10 NaN = NaN"

text \<open>\<open>Math.round\<close>: the nearest integer, a tie going towards \<open>+Infinity\<close>.\<close>

fun Math_round :: "jsnum \<Rightarrow> jsnum" where
  "Math_round (Fin a) = Fin (of_int \<lfloor>a + 1 / 2\<rfloor>)"
| "Math_round x = x"

fun is_finite :: "jsnum \<Rightarrow> bool" where
  "is_finite (Fin a) = True"
| "is_finite x = False"

section \<open>Constants of the calculator\<close>

record security_weights =
  BACKUPS :: jsnum
  MFA :: jsnum
  PHISHING_TRAINING :: jsnum
  VENDOR_REVIEWS :: jsnum
  IR_TABLETOP :: jsnum
  BASE_SECURITY :: jsnum

definition SECURITY_WEIGHTS :: security_weights where
  "SECURITY_WEIGHTS =
     \<lparr>BACKUPS = Fin 0.15, MFA = Fin 0.2, PHISHING_TRAINING = Fin 0.15,
      VENDOR_REVIEWS = Fin 0.25, IR_TABLETOP = Fin 0.1, BASE_SECURITY = Fin 0.15\<rparr>"

text \<open>
  The entries of both catalogs carry a name and a base cost. The fields that only the
  charts read (a category's icon, a scenario's colour) are left out of the model.
\<close>

record item =
  name :: string
  baseCost :: jsnum

definition COST_CATEGORIES :: "item list" where
  "COST_CATEGORIES =
     [\<lparr>name = ''Emergency IT/Forensics'', baseCost = Fin 85000\<rparr>,
      \<lparr>name = ''Legal/Compliance'', baseCost = Fin 120000\<rparr>,
      \<lparr>name = ''PR/Client Communications'', baseCost = Fin 45000\<rparr>,
      \<lparr>name = ''Revenue Loss'', baseCost = Fin 180000\<rparr>,
      \<lparr>name = ''Temporary Systems'', baseCost = Fin 60000\<rparr>,
      \<lparr>name = ''Staff Overtime'', baseCost = Fin 40000\<rparr>,
      \<lparr>name = ''Client Churn'', baseCost = Fin 390000\<rparr>,
      \<lparr>name = ''Insurance Premium Increase'', baseCost = Fin 25000\<rparr>,
      \<lparr>name = ''Security Overhaul'', baseCost = Fin 150000\<rparr>,
      \<lparr>name = ''Regulatory Fines'', baseCost = Fin 75000\<rparr>,
      \<lparr>name = ''Audit Costs'', baseCost = Fin 30000\<rparr>]"

record threat_scenario = item +
  frequency :: jsnum
  severity :: jsnum

definition THREAT_SCENARIOS :: "threat_scenario list" where
  "THREAT_SCENARIOS =
     [\<lparr>name = ''Phishing'', baseCost = Fin 300000, frequency = Fin 0.3, severity = Fin 0.7\<rparr>,
      \<lparr>name = ''Ransomware'', baseCost = Fin 800000, frequency = Fin 0.15, severity = Fin 0.9\<rparr>,
      \<lparr>name = ''Vendor Breach'', baseCost = Fin 450000, frequency = Fin 0.2, severity = Fin 0.6\<rparr>]"

record limits =
  min_limit :: jsnum
  max_limit :: jsnum

text \<open>
  \<open>INPUT_LIMITS[field]\<close>: \<open>None\<close> is the \<open>undefined\<close> of a field with no entry.
  Names that every object inherits, such as \<open>toString\<close>, are never passed as a field
  and are not modelled.
\<close>

definition INPUT_LIMITS :: "string \<rightharpoonup> limits" where
  "INPUT_LIMITS =
     [''employees'' \<mapsto> \<lparr>min_limit = Fin 1, max_limit = Fin 1000000\<rparr>,
      ''revenue'' \<mapsto> \<lparr>min_limit = Fin 0, max_limit = Fin 100000000000\<rparr>,
      ''insurance'' \<mapsto> \<lparr>min_limit = Fin 0, max_limit = Fin 50000000\<rparr>]"

section \<open>The percentile generator\<close>

record organizationFactors =
  sizeFactor :: jsnum
  revenueFactor :: jsnum
  riskReduction' :: jsnum

record percentiles =
  p5th :: jsnum
  p25th :: jsnum
  Median :: jsnum
  p75th :: jsnum
  p95th :: jsnum

text \<open>The local constants of \<open>generateRealisticPercentiles\<close>, each under its own name.\<close>

definition adjustedBase :: "jsnum \<Rightarrow> organizationFactors \<Rightarrow> jsnum" where
  "adjustedBase bc f = bc * sizeFactor f * revenueFactor f * (Fin 1 - riskReduction' f)"

definition baseVariance :: "jsnum \<Rightarrow> organizationFactors \<Rightarrow> jsnum" where
  "baseVariance bc f = adjustedBase bc f * Fin 0.6"

definition longTailFactor :: jsnum where
  "longTailFactor = Fin 1.8"

definition generateRealisticPercentiles :: "jsnum \<Rightarrow> organizationFactors \<Rightarrow> percentiles" where
  "generateRealisticPercentiles bc f =
     \<lparr>p5th = Math_round (Math_max (adjustedBase bc f * Fin 0.15)
                                  (adjustedBase bc f - baseVariance bc f * Fin 1.5)),
      p25th = Math_round (adjustedBase bc f * Fin 0.55),
      Median = Math_round (adjustedBase bc f),
      p75th = Math_round (adjustedBase bc f * Fin 1.65),
      p95th = Math_round (adjustedBase bc f * longTailFactor * Fin 2.2)\<rparr>"

section \<open>The risk calculation\<close>

record inputs =
  employees :: jsnum
  revenue :: jsnum
  insurance :: jsnum
  backupsIsolated :: bool
  mfaEnabled :: bool
  phishingTraining :: bool
  vendorReviews :: bool
  irTabletop :: bool

text \<open>
  The local constants of the \<open>results\<close> computation. The two that the result object
  reports again as percentages are named \<open>securityScore_fraction\<close> and
  \<open>riskReduction_fraction\<close> here; \<open>sizeFactor_of\<close> and \<open>revenueFactor_of\<close> are
  the constants \<open>sizeFactor\<close> and \<open>revenueFactor\<close>.
\<close>

definition securityScore_fraction :: "inputs \<Rightarrow> jsnum" where
  "securityScore_fraction inp =
     (if backupsIsolated inp then BACKUPS SECURITY_WEIGHTS else Fin 0) +
     (if mfaEnabled inp then MFA SECURITY_WEIGHTS else Fin 0) +
     (if phishingTraining inp then PHISHING_TRAINING SECURITY_WEIGHTS else Fin 0) +
     (if vendorReviews inp then VENDOR_REVIEWS SECURITY_WEIGHTS else Fin 0) +
     (if irTabletop inp then IR_TABLETOP SECURITY_WEIGHTS else Fin 0) +
     BASE_SECURITY SECURITY_WEIGHTS"

definition sizeFactor_of :: "inputs \<Rightarrow> jsnum" where
  "sizeFactor_of inp =
     Math_max (Fin 1) (Math_log10 (Math_max (employees inp) (Fin 10) / Fin 100) * Fin 0.2 + Fin 1)"

definition revenueFactor_of :: "inputs \<Rightarrow> jsnum" where
  "revenueFactor_of inp =
     Math_max (Fin 1)
       (Math_log10 (Math_max (revenue inp) (Fin 1000000) / Fin 10000000) * Fin 0.15 + Fin 1)"

definition riskReduction_fraction :: "inputs \<Rightarrow> jsnum" where
  "riskReduction_fraction inp = Math_min (securityScore_fraction inp * Fin 0.65) (Fin 0.75)"

definition organizationFactors_of :: "inputs \<Rightarrow> organizationFactors" where
  "organizationFactors_of inp =
     \<lparr>sizeFactor = sizeFactor_of inp, revenueFactor = revenueFactor_of inp,
      riskReduction' = riskReduction_fraction inp\<rparr>"

record scenario_result = threat_scenario +
  percentiles :: percentiles

definition scenarios_of :: "inputs \<Rightarrow> scenario_result list" where
  "scenarios_of inp =
     map (\<lambda>scenario.
            \<lparr>name = name scenario, baseCost = baseCost scenario,
             frequency = frequency scenario, severity = severity scenario,
             percentiles = generateRealisticPercentiles (baseCost scenario)
                             (organizationFactors_of inp)\<rparr>)
         THREAT_SCENARIOS"

text \<open>
  The reduction a category takes directly from its own control: the five guarded
  \<open>reductionFactor += ...\<close> statements, in the order of the source, starting from 0.
\<close>

definition directReduction :: "inputs \<Rightarrow> item \<Rightarrow> jsnum" where
  "directReduction inp category =
     (let r0 = Fin 0;
          r1 = (if name category = ''Emergency IT/Forensics'' \<and> backupsIsolated inp
                then r0 + Fin 0.35 else r0);
          r2 = (if name category = ''Revenue Loss'' \<and> mfaEnabled inp
                then r1 + Fin 0.25 else r1);
          r3 = (if name category = ''Client Churn'' \<and> phishingTraining inp
                then r2 + Fin 0.30 else r2);
          r4 = (if name category = ''Regulatory Fines'' \<and> vendorReviews inp
                then r3 + Fin 0.45 else r3);
          r5 = (if name category = ''Staff Overtime'' \<and> irTabletop inp
                then r4 + Fin 0.40 else r4)
      in r5)"

definition enabledControls :: "inputs \<Rightarrow> nat" where
  "enabledControls inp =
     length (filter (\<lambda>b. b)
       [backupsIsolated inp, mfaEnabled inp, phishingTraining inp,
        vendorReviews inp, irTabletop inp])"

definition synergyBonus :: "inputs \<Rightarrow> jsnum" where
  "synergyBonus inp =
     (if enabledControls inp \<ge> 4 then Fin 0.15
      else if enabledControls inp \<ge> 3 then Fin 0.10 else Fin 0)"

record cost_entry = item +
  reductionFactor :: jsnum
  adjustedCost :: jsnum

definition adjust_category :: "inputs \<Rightarrow> item \<Rightarrow> cost_entry" where
  "adjust_category inp category =
     (let reductionFactor = Math_min (directReduction inp category + synergyBonus inp) (Fin 0.70);
          adjustedCost = baseCost category * (Fin 1 - reductionFactor) * sizeFactor_of inp
      in \<lparr>name = name category, baseCost = baseCost category,
          reductionFactor = reductionFactor, adjustedCost = Math_round adjustedCost\<rparr>)"

definition adjustedCosts :: "inputs \<Rightarrow> cost_entry list" where
  "adjustedCosts inp = map (adjust_category inp) COST_CATEGORIES"

definition totalCost_of :: "inputs \<Rightarrow> jsnum" where
  "totalCost_of inp = foldl (\<lambda>sum cat. sum + adjustedCost cat) (Fin 0) (adjustedCosts inp)"

record result =
  scenarios :: "scenario_result list"
  costBreakdown :: "cost_entry list"
  totalCost :: jsnum
  securityScore :: jsnum
  riskReduction :: jsnum

text \<open>
  \<open>results\<close> is the body of the \<open>try\<close> block; \<open>None\<close> would be the \<open>null\<close> of the
  \<open>catch\<close> branch. No operation of the body throws (reads of fields of the input
  object, arithmetic, \<open>Math\<close> functions, \<open>map\<close>, \<open>filter\<close> and \<open>reduce\<close> over
  the fixed arrays), so the body always reaches its \<open>return\<close>.
\<close>

definition results :: "inputs \<Rightarrow> result option" where
  "results inp =
     Some \<lparr>scenarios = scenarios_of inp,
           costBreakdown = adjustedCosts inp,
           totalCost = totalCost_of inp,
           securityScore = Math_round (securityScore_fraction inp * Fin 100),
           riskReduction = Math_round (riskReduction_fraction inp * Fin 100)\<rparr>"

text \<open>The state the form starts from: the example organisation with every control on.\<close>

definition initial_inputs :: inputs where
  "initial_inputs =
     \<lparr>employees = Fin 250, revenue = Fin 50000000, insurance = Fin 1000000,
      backupsIsolated = True, mfaEnabled = True, phishingTraining = True,
      vendorReviews = True, irTabletop = True\<rparr>"

section \<open>Input validation\<close>

text \<open>
  \<open>inputErrors\<close> is an object keyed by field name, here a map. \<open>validateInput\<close>
  changes it through \<open>setInputErrors\<close> with an updater function; the model takes the
  previous errors and returns the verdict together with the errors after the update.
  The text of a bound depends on the locale of the browser, so \<open>toLocaleString\<close> is a
  parameter.
\<close>

definition validateInput ::
  "(jsnum \<Rightarrow> string) \<Rightarrow> string \<Rightarrow> jsnum \<Rightarrow> (string \<rightharpoonup> string) \<Rightarrow> bool \<times> (string \<rightharpoonup> string)" where
  "validateInput toLocaleString field v prev =
     (case INPUT_LIMITS field of
        None \<Rightarrow> (True, prev)
      | Some limits \<Rightarrow>
          if v < min_limit limits \<or> v > max_limit limits
          then (False,
                prev(field \<mapsto> ''Value must be between '' @ toLocaleString (min_limit limits)
                                 @ '' and '' @ toLocaleString (max_limit limits)))
          else (True, prev(field := None)))"

text \<open>
  A formatter to run the validator with on concrete values; it writes every number as
  \<open>n\<close>.
\<close>

definition sample_toLocaleString :: "jsnum \<Rightarrow> string" where
  "sample_toLocaleString n = ''n''"

section \<open>The signup webhook\<close>









section \<open>The calculation without the two caps\<close>

text \<open>
  A second reading of the calculation, used only for comparison with \<open>results\<close>: the
  same computation with both \<open>Math.min\<close> calls removed, so that the risk reduction is
  \<open>securityScore * 0.65\<close> and a reduction factor is the direct reduction plus the
  synergy bonus.
\<close>

definition riskReduction_uncapped :: "inputs \<Rightarrow> jsnum" where
  "riskReduction_uncapped inp = securityScore_fraction inp * Fin 0.65"

definition organizationFactors_uncapped :: "inputs \<Rightarrow> organizationFactors" where
  "organizationFactors_uncapped inp =
     \<lparr>sizeFactor = sizeFactor_of inp, revenueFactor = revenueFactor_of inp,
      riskReduction' = riskReduction_uncapped inp\<rparr>"

definition scenarios_uncapped :: "inputs \<Rightarrow> scenario_result list" where
  "scenarios_uncapped inp =
     map (\<lambda>scenario.
            \<lparr>name = name scenario, baseCost = baseCost scenario,
             frequency = frequency scenario, severity = severity scenario,
             percentiles = generateRealisticPercentiles (baseCost scenario)
                             (organizationFactors_uncapped inp)\<rparr>)
         THREAT_SCENARIOS"

definition adjust_category_uncapped :: "inputs \<Rightarrow> item \<Rightarrow> cost_entry" where
  "adjust_category_uncapped inp category =
     (let reductionFactor = directReduction inp category + synergyBonus inp;
          adjustedCost = baseCost category * (Fin 1 - reductionFactor) * sizeFactor_of inp
      in \<lparr>name = name category, baseCost = baseCost category,
          reductionFactor = reductionFactor, adjustedCost = Math_round adjustedCost\<rparr>)"

definition results_uncapped :: "inputs \<Rightarrow> result option" where
  "results_uncapped inp =
     Some \<lparr>scenarios = scenarios_uncapped inp,
           costBreakdown = map (adjust_category_uncapped inp) COST_CATEGORIES,
           totalCost = foldl (\<lambda>sum cat. sum + adjustedCost cat) (Fin 0)
                         (map (adjust_category_uncapped inp) COST_CATEGORIES),
           securityScore = Math_round (securityScore_fraction inp * Fin 100),
           riskReduction = Math_round (riskReduction_uncapped inp * Fin 100)\<rparr>"

section \<open>Predicates used to state the properties\<close>

text \<open>
  \<open>more_controls inp inp'\<close>: the two inputs have the same profile and every control
  that is on in \<open>inp\<close> is on in \<open>inp'\<close>.
\<close>

definition more_controls :: "inputs \<Rightarrow> inputs \<Rightarrow> bool" where
  "more_controls inp inp' \<longleftrightarrow>
     employees inp' = employees inp \<and> revenue inp' = revenue inp \<and>
     insurance inp' = insurance inp \<and>
     (backupsIsolated inp \<longrightarrow> backupsIsolated inp') \<and>
     (mfaEnabled inp \<longrightarrow> mfaEnabled inp') \<and>
     (phishingTraining inp \<longrightarrow> phishingTraining inp') \<and>
     (vendorReviews inp \<longrightarrow> vendorReviews inp') \<and>
     (irTabletop inp \<longrightarrow> irTabletop inp')"

text \<open>
  \<open>no_worse inp inp'\<close>: both assessments return a result; the total cost for
  \<open>inp'\<close> is not greater and the security score for \<open>inp'\<close> is not less than for
  \<open>inp\<close>. The third conjunct says more: the new total is at most the old one unless
  the total is NaN, the one value that compares with nothing.
\<close>

definition no_worse :: "inputs \<Rightarrow> inputs \<Rightarrow> bool" where
  "no_worse inp inp' =
     (case (results inp, results inp') of
        (Some r, Some r') \<Rightarrow>
          \<not> totalCost r < totalCost r' \<and> \<not> securityScore r' < securityScore r \<and>
          (totalCost r' \<le> totalCost r \<or> totalCost r = NaN) \<and>
          securityScore r \<le> securityScore r'
      | _ \<Rightarrow> False)"

definition percentiles_ordered :: "percentiles \<Rightarrow> bool" where
  "percentiles_ordered p \<longleftrightarrow>
     Fin 0 \<le> p5th p \<and> p5th p \<le> p25th p \<and> p25th p \<le> Median p \<and>
     Median p \<le> p75th p \<and> p75th p \<le> p95th p"

definition finite_percentiles :: "percentiles \<Rightarrow> bool" where
  "finite_percentiles p \<longleftrightarrow>
     is_finite (p5th p) \<and> is_finite (p25th p) \<and> is_finite (Median p) \<and>
     is_finite (p75th p) \<and> is_finite (p95th p)"

definition finite_result :: "result \<Rightarrow> bool" where
  "finite_result r \<longleftrightarrow>
     is_finite (totalCost r) \<and> is_finite (securityScore r) \<and> is_finite (riskReduction r) \<and>
     list_all (\<lambda>s. finite_percentiles (percentiles s)) (scenarios r) \<and>
     list_all (\<lambda>c. is_finite (reductionFactor c) \<and> is_finite (adjustedCost c)) (costBreakdown r)"

text \<open>The percentiles the assessment reports for the scenario of a given name.\<close>

definition scenario_percentiles :: "inputs \<Rightarrow> string \<Rightarrow> percentiles option" where
  "scenario_percentiles inp n =
     (case results inp of
        None \<Rightarrow> None
      | Some res \<Rightarrow> map_option percentiles (find (\<lambda>s. name s = n) (scenarios res)))"

text \<open>
  The worked example of the specification for the Phishing scenario, each value read
  up to rounding, that is, up to one currency unit.
\<close>

definition within_rounding :: "jsnum \<Rightarrow> real \<Rightarrow> bool" where
  "within_rounding x y = (case x of Fin a \<Rightarrow> \<bar>a - y\<bar> \<le> 1 | _ \<Rightarrow> False)"

definition spec_example_percentiles :: "percentiles \<Rightarrow> bool" where
  "spec_example_percentiles p \<longleftrightarrow>
     within_rounding (p5th p) 18787 \<and> within_rounding (p25th p) 68885 \<and>
     within_rounding (Median p) 125246 \<and> within_rounding (p75th p) 206656 \<and>
     within_rounding (p95th p) 495974"

section \<open>Arithmetic on finite numbers\<close>

lemma minus_Fin [simp]: "Fin a - Fin b = Fin (a - b)"
  by (simp add: minus_jsnum_def)

lemma Math_max_Fin [simp]: "Math_max (Fin a) (Fin b) = Fin (max a b)"
  by (simp add: max_def)

lemma Math_min_Fin [simp]: "Math_min (Fin a) (Fin b) = Fin (min a b)"
  by (simp add: min_def)

lemma times_NaN_right [simp]: "x * NaN = NaN"
  by (cases x) simp_all

lemma plus_NaN_right [simp]: "x + NaN = NaN"
  by (cases x) simp_all

lemma round_eqI: "of_int n - 1 / 2 \<le> x \<Longrightarrow> x < of_int n + 1 / 2 \<Longrightarrow> \<lfloor>x + 1 / 2 :: real\<rfloor> = n"
  by linarith

section \<open>The security score\<close>

lemma securityScore_fraction_Fin:
  "securityScore_fraction inp =
     Fin ((if backupsIsolated inp then 0.15 else 0) + (if mfaEnabled inp then 0.2 else 0) +
          (if phishingTraining inp then 0.15 else 0) + (if vendorReviews inp then 0.25 else 0) +
          (if irTabletop inp then 0.1 else 0) + 0.15)"
  by (simp add: securityScore_fraction_def SECURITY_WEIGHTS_def)

text \<open>
  C4. Whatever the five controls are, the security score as a fraction lies between
  0.15 and 1; it is exactly 1 when all five controls are on and exactly the base weight
  0.15 when all five are off.
\<close>

theorem securityScore_bounds:
  "Fin 0.15 \<le> securityScore_fraction inp \<and> securityScore_fraction inp \<le> Fin 1 \<and>
   securityScore_fraction
     (inp\<lparr>backupsIsolated := True, mfaEnabled := True, phishingTraining := True,
          vendorReviews := True, irTabletop := True\<rparr>) = Fin 1 \<and>
   securityScore_fraction
     (inp\<lparr>backupsIsolated := False, mfaEnabled := False, phishingTraining := False,
          vendorReviews := False, irTabletop := False\<rparr>) = Fin 0.15"
  by (simp add: securityScore_fraction_Fin)

lemma riskReduction_fraction_Fin:
  obtains rr where "riskReduction_fraction inp = Fin rr" "0 \<le> rr" "rr \<le> 0.65"
proof (rule that)
  let ?v = "(if backupsIsolated inp then 0.15 else 0) + (if mfaEnabled inp then 0.2 else 0) +
          (if phishingTraining inp then 0.15 else 0) + (if vendorReviews inp then 0.25 else 0) +
          (if irTabletop inp then 0.1 else 0) + (0.15::real)"
  show "riskReduction_fraction inp = Fin (min (?v * 0.65) 0.75)"
    by (simp add: riskReduction_fraction_def securityScore_fraction_Fin)
  show "0 \<le> min (?v * 0.65) 0.75" by simp
  show "min (?v * 0.65) 0.75 \<le> 0.65" by simp
qed

lemma securityScore_mono:
  assumes "more_controls inp inp'"
  shows "Math_round (securityScore_fraction inp * Fin 100)
           \<le> Math_round (securityScore_fraction inp' * Fin 100)"
proof -
  let ?v = "\<lambda>inp. (if backupsIsolated inp then 0.15 else 0) + (if mfaEnabled inp then 0.2 else 0) +
          (if phishingTraining inp then 0.15 else 0) + (if vendorReviews inp then 0.25 else 0) +
          (if irTabletop inp then 0.1 else 0) + (0.15::real)"
  have "?v inp \<le> ?v inp'"
    using assms unfolding more_controls_def by (intro add_mono) auto
  then have "\<lfloor>?v inp * 100 + 1 / 2\<rfloor> \<le> \<lfloor>?v inp' * 100 + 1 / 2\<rfloor>"
    by (intro floor_mono) simp
  then show ?thesis
    by (simp only: securityScore_fraction_Fin times_jsnum.simps Math_round.simps
        less_eq_jsnum.simps of_int_le_iff)
qed

section \<open>Scale factors\<close>

lemma sizeFactor_of_finite:
  assumes "employees inp = Fin e"
  obtains sf where "sizeFactor_of inp = Fin sf" "1 \<le> sf"
proof -
  have "0 < max e 10 / 100" by simp
  then have "sizeFactor_of inp = Fin (max 1 (log 10 (max e 10 / 100) * 0.2 + 1))"
    using assms by (simp add: sizeFactor_of_def)
  then show ?thesis using that by simp
qed

lemma revenueFactor_of_finite:
  assumes "revenue inp = Fin r"
  obtains rf where "revenueFactor_of inp = Fin rf" "1 \<le> rf"
proof -
  have "0 < max r 1000000 / 10000000" by simp
  then have "revenueFactor_of inp = Fin (max 1 (log 10 (max r 1000000 / 10000000) * 0.15 + 1))"
    using assms by (simp add: revenueFactor_of_def)
  then show ?thesis using that by simp
qed

lemma sizeFactor_of_cases:
  obtains (finite) sf where "sizeFactor_of inp = Fin sf" "1 \<le> sf"
  | (infinite) "sizeFactor_of inp = PosInf"
  | (nan) "sizeFactor_of inp = NaN"
proof (cases "employees inp")
  case (Fin e)
  then show ?thesis using sizeFactor_of_finite finite by blast
next
  case PosInf
  then have "sizeFactor_of inp = PosInf"
    by (simp add: sizeFactor_of_def of_sign_def)
  then show ?thesis by (rule infinite)
next
  case NegInf
  have "log 10 (1 / 10 :: real) = - 1"
    by (simp add: log_divide)
  then have "sizeFactor_of inp = Fin 1"
    using NegInf by (simp add: sizeFactor_of_def)
  then show ?thesis using finite by simp
next
  case NaN
  then have "sizeFactor_of inp = NaN"
    by (simp add: sizeFactor_of_def)
  then show ?thesis by (rule nan)
qed

lemma sizeFactor_of_more_controls:
  "more_controls inp inp' \<Longrightarrow> sizeFactor_of inp' = sizeFactor_of inp"
  by (simp add: sizeFactor_of_def more_controls_def)

lemma sizeFactor_of_is_finite:
  "is_finite (sizeFactor_of inp) \<longleftrightarrow> employees inp \<noteq> NaN \<and> employees inp \<noteq> PosInf"
proof (cases "employees inp")
  case (Fin e)
  then show ?thesis using sizeFactor_of_finite[OF Fin] by (metis is_finite.simps(1) jsnum.distinct(1,5))
next
  case PosInf
  then show ?thesis by (simp add: sizeFactor_of_def of_sign_def)
next
  case NegInf
  have "log 10 (1 / 10 :: real) = - 1"
    by (simp add: log_divide)
  then show ?thesis using NegInf by (simp add: sizeFactor_of_def)
next
  case NaN
  then show ?thesis by (simp add: sizeFactor_of_def)
qed

lemma revenueFactor_of_cases:
  obtains (finite) rf where "revenueFactor_of inp = Fin rf" "1 \<le> rf"
    "revenue inp \<noteq> NaN" "revenue inp \<noteq> PosInf"
  | (infinite) "revenueFactor_of inp = PosInf" "revenue inp = PosInf"
  | (nan) "revenueFactor_of inp = NaN" "revenue inp = NaN"
proof (cases "revenue inp")
  case (Fin r)
  then show ?thesis using revenueFactor_of_finite[OF Fin] finite by auto
next
  case PosInf
  then have "revenueFactor_of inp = PosInf"
    by (simp add: revenueFactor_of_def of_sign_def)
  then show ?thesis using PosInf by (rule infinite)
next
  case NegInf
  have "log 10 (1 / 10 :: real) = - 1"
    by (simp add: log_divide)
  then have "revenueFactor_of inp = Fin 1"
    using NegInf by (simp add: revenueFactor_of_def)
  then show ?thesis using finite NegInf by simp
next
  case NaN
  then have "revenueFactor_of inp = NaN"
    by (simp add: revenueFactor_of_def)
  then show ?thesis using NaN by (rule nan)
qed

lemma revenueFactor_of_is_finite:
  "is_finite (revenueFactor_of inp) \<longleftrightarrow> revenue inp \<noteq> NaN \<and> revenue inp \<noteq> PosInf"
  by (cases rule: revenueFactor_of_cases[of inp]) simp_all

lemma Fin_times_PosInf: "0 < a \<Longrightarrow> Fin a * PosInf = PosInf"
  and PosInf_times_Fin: "0 < a \<Longrightarrow> PosInf * Fin a = PosInf"
  by (simp_all add: of_sign_def)

section \<open>The cost breakdown\<close>

lemma more_controls_refl: "more_controls inp inp"
  by (simp add: more_controls_def)

lemma directReduction_Fin:
  "directReduction inp c =
     Fin ((if name c = ''Emergency IT/Forensics'' \<and> backupsIsolated inp then 0.35 else 0) +
          (if name c = ''Revenue Loss'' \<and> mfaEnabled inp then 0.25 else 0) +
          (if name c = ''Client Churn'' \<and> phishingTraining inp then 0.30 else 0) +
          (if name c = ''Regulatory Fines'' \<and> vendorReviews inp then 0.45 else 0) +
          (if name c = ''Staff Overtime'' \<and> irTabletop inp then 0.40 else 0))"
  by (simp add: directReduction_def Let_def)

lemma enabledControls_eq:
  "enabledControls inp =
     of_bool (backupsIsolated inp) + of_bool (mfaEnabled inp) + of_bool (phishingTraining inp) +
     of_bool (vendorReviews inp) + of_bool (irTabletop inp)"
  by (simp add: enabledControls_def)

lemma synergyBonus_Fin:
  "synergyBonus inp =
     Fin (if 4 \<le> enabledControls inp then 0.15 else if 3 \<le> enabledControls inp then 0.10 else 0)"
  by (simp add: synergyBonus_def)

text \<open>
  A category name matches at most one of the five guards, so the direct reduction is
  at most 0.45; it does not shrink when controls are added.
\<close>

lemma directReduction_mono:
  assumes "more_controls inp inp'"
  obtains d d' where "directReduction inp c = Fin d" "directReduction inp' c = Fin d'"
    "0 \<le> d" "d \<le> d'" "d' \<le> 0.45"
proof (rule that)
  show "directReduction inp c =
     Fin ((if name c = ''Emergency IT/Forensics'' \<and> backupsIsolated inp then 0.35 else 0) +
          (if name c = ''Revenue Loss'' \<and> mfaEnabled inp then 0.25 else 0) +
          (if name c = ''Client Churn'' \<and> phishingTraining inp then 0.30 else 0) +
          (if name c = ''Regulatory Fines'' \<and> vendorReviews inp then 0.45 else 0) +
          (if name c = ''Staff Overtime'' \<and> irTabletop inp then 0.40 else 0))"
    by (rule directReduction_Fin)
  show "directReduction inp' c =
     Fin ((if name c = ''Emergency IT/Forensics'' \<and> backupsIsolated inp' then 0.35 else 0) +
          (if name c = ''Revenue Loss'' \<and> mfaEnabled inp' then 0.25 else 0) +
          (if name c = ''Client Churn'' \<and> phishingTraining inp' then 0.30 else 0) +
          (if name c = ''Regulatory Fines'' \<and> vendorReviews inp' then 0.45 else 0) +
          (if name c = ''Staff Overtime'' \<and> irTabletop inp' then 0.40 else 0))"
    by (rule directReduction_Fin)
qed (use assms in \<open>auto simp: more_controls_def\<close>)

lemma enabledControls_mono:
  "more_controls inp inp' \<Longrightarrow> enabledControls inp \<le> enabledControls inp'"
  by (auto simp: enabledControls_eq more_controls_def intro!: add_mono)

lemma synergyBonus_mono:
  assumes "more_controls inp inp'"
  obtains s s' where "synergyBonus inp = Fin s" "synergyBonus inp' = Fin s'"
    "0 \<le> s" "s \<le> s'" "s' \<le> 0.15"
proof (rule that)
  show "synergyBonus inp =
     Fin (if 4 \<le> enabledControls inp then 0.15 else if 3 \<le> enabledControls inp then 0.10 else 0)"
    by (rule synergyBonus_Fin)
  show "synergyBonus inp' =
     Fin (if 4 \<le> enabledControls inp' then 0.15 else if 3 \<le> enabledControls inp' then 0.10 else 0)"
    by (rule synergyBonus_Fin)
qed (use enabledControls_mono[OF assms] in auto)

lemma adjust_category_Fin:
  assumes "sizeFactor_of inp = Fin sf" "baseCost c = Fin b"
    "directReduction inp c = Fin d" "synergyBonus inp = Fin s"
  shows "adjust_category inp c =
           \<lparr>name = name c, baseCost = Fin b, reductionFactor = Fin (min (d + s) 0.7),
            adjustedCost = Fin (of_int \<lfloor>b * (1 - min (d + s) 0.7) * sf + 1 / 2\<rfloor>)\<rparr>"
  using assms by (simp add: adjust_category_def Let_def)

lemma adjustedCost_mono:
  assumes mc: "more_controls inp inp'" and sf: "sizeFactor_of inp = Fin sf" "1 \<le> sf"
    and b: "baseCost c = Fin b" "0 \<le> b"
  obtains x x' where "adjustedCost (adjust_category inp c) = Fin x"
    "adjustedCost (adjust_category inp' c) = Fin x'" "0 \<le> x'" "x' \<le> x"
proof -
  from mc have sf': "sizeFactor_of inp' = Fin sf"
    using sf by (simp add: sizeFactor_of_more_controls)
  obtain d d' where d: "directReduction inp c = Fin d" "directReduction inp' c = Fin d'"
    "0 \<le> d" "d \<le> d'" "d' \<le> 0.45"
    using mc by (rule directReduction_mono)
  obtain s s' where s: "synergyBonus inp = Fin s" "synergyBonus inp' = Fin s'"
    "0 \<le> s" "s \<le> s'" "s' \<le> 0.15"
    using mc by (rule synergyBonus_mono)
  let ?x = "b * (1 - min (d + s) 0.7) * sf"
  let ?x' = "b * (1 - min (d' + s') 0.7) * sf"
  have le: "?x' \<le> ?x"
    using b sf d s by (intro mult_right_mono mult_left_mono) auto
  have nn: "0 \<le> ?x'"
    using b sf d s by (intro mult_nonneg_nonneg) auto
  show ?thesis
  proof (rule that)
    show "adjustedCost (adjust_category inp c) = Fin (of_int \<lfloor>?x + 1 / 2\<rfloor>)"
      by (simp add: adjust_category_Fin[OF sf(1) b(1) d(1) s(1)])
    show "adjustedCost (adjust_category inp' c) = Fin (of_int \<lfloor>?x' + 1 / 2\<rfloor>)"
      by (simp add: adjust_category_Fin[OF sf' b(1) d(2) s(2)])
    show "(0::real) \<le> of_int \<lfloor>?x' + 1 / 2\<rfloor>"
      using nn by simp
    show "(of_int \<lfloor>?x' + 1 / 2\<rfloor> :: real) \<le> of_int \<lfloor>?x + 1 / 2\<rfloor>"
      using le by (simp add: floor_mono)
  qed
qed

lemma reductionFactor_capped: "reductionFactor (adjust_category inp c) \<le> Fin 0.70"
proof -
  obtain d d' where d: "directReduction inp c = Fin d"
    using more_controls_refl by (rule directReduction_mono)
  obtain s s' where s: "synergyBonus inp = Fin s"
    using more_controls_refl by (rule synergyBonus_mono)
  show ?thesis
    by (simp add: adjust_category_def Let_def d s)
qed

lemma COST_CATEGORIES_baseCost:
  "list_all (\<lambda>c. \<exists>b. baseCost c = Fin b \<and> 0 < b) COST_CATEGORIES"
  by (simp add: COST_CATEGORIES_def)

lemma adjustedCosts_of_factor:
  assumes sf: "sizeFactor_of inp = Fin sf" "1 \<le> sf"
  shows "list_all (\<lambda>c. is_finite (reductionFactor c) \<and> is_finite (adjustedCost c) \<and>
                        Fin 0 \<le> adjustedCost c) (adjustedCosts inp)"
proof -
  have "list_all (\<lambda>c. is_finite (reductionFactor (adjust_category inp c)) \<and>
           is_finite (adjustedCost (adjust_category inp c)) \<and>
           Fin 0 \<le> adjustedCost (adjust_category inp c)) COST_CATEGORIES"
    using COST_CATEGORIES_baseCost
  proof (rule list.pred_mono_strong)
    fix c :: item assume "\<exists>b. baseCost c = Fin b \<and> 0 < b"
    then obtain b where b: "baseCost c = Fin b" "0 \<le> b" by auto
    obtain d d' where d: "directReduction inp c = Fin d"
      using more_controls_refl by (rule directReduction_mono)
    obtain s s' where s: "synergyBonus inp = Fin s"
      using more_controls_refl by (rule synergyBonus_mono)
    obtain x x' where "adjustedCost (adjust_category inp c) = Fin x'" "0 \<le> x'"
      using more_controls_refl sf b by (rule adjustedCost_mono)
    then show "is_finite (reductionFactor (adjust_category inp c)) \<and>
           is_finite (adjustedCost (adjust_category inp c)) \<and>
           Fin 0 \<le> adjustedCost (adjust_category inp c)"
      by (simp add: adjust_category_Fin[OF sf(1) b(1) d s])
  qed
  then show ?thesis
    by (simp add: adjustedCosts_def list_all_iff)
qed

lemma adjustedCosts_finite:
  assumes "employees inp = Fin e"
  shows "list_all (\<lambda>c. is_finite (reductionFactor c) \<and> is_finite (adjustedCost c) \<and>
                        Fin 0 \<le> adjustedCost c) (adjustedCosts inp)"
proof -
  obtain sf where "sizeFactor_of inp = Fin sf" "1 \<le> sf"
    using assms by (rule sizeFactor_of_finite)
  then show ?thesis by (rule adjustedCosts_of_factor)
qed

text \<open>
  C5. For every input, the risk reduction as a fraction is at most 0.75 and the
  reduction factor of every category is at most 0.70. The first two conjuncts say so for
  any profile, any controls and any category; the third reads the same off the returned
  result: the reported percentage is at most 75 and each of the eleven entries of the
  cost breakdown has a reduction factor of at most 0.70.
\<close>

theorem reduction_caps:
  "riskReduction_fraction inp \<le> Fin 0.75 \<and>
   reductionFactor (adjust_category inp c) \<le> Fin 0.70 \<and>
   (case results inp of
      None \<Rightarrow> False
    | Some res \<Rightarrow>
        riskReduction res \<le> Fin 75 \<and>
        length (costBreakdown res) = 11 \<and>
        list_all (\<lambda>entry. reductionFactor entry \<le> Fin 0.70) (costBreakdown res))"
proof -
  obtain rr where rr: "riskReduction_fraction inp = Fin rr" "0 \<le> rr" "rr \<le> 0.65"
    by (rule riskReduction_fraction_Fin)
  have "rr * 100 + 1 / 2 \<le> 75 + 1 / 2" using rr by simp
  then have "\<lfloor>rr * 100 + 1 / 2\<rfloor> \<le> \<lfloor>75 + 1 / 2 :: real\<rfloor>" by (rule floor_mono)
  also have "\<lfloor>75 + 1 / 2 :: real\<rfloor> = 75" by linarith
  finally have pct: "Math_round (riskReduction_fraction inp * Fin 100) \<le> Fin 75"
    by (simp add: rr)
  have "list_all (\<lambda>entry. reductionFactor entry \<le> Fin 0.70) (adjustedCosts inp)"
    using reductionFactor_capped[of inp] by (simp add: adjustedCosts_def list_all_iff)
  moreover have "length (adjustedCosts inp) = 11"
    by (simp add: adjustedCosts_def COST_CATEGORIES_def)
  ultimately show ?thesis
    using rr pct reductionFactor_capped[of inp c] by (simp add: results_def)
qed

text \<open>
  C10. Neither cap is ever binding. For every control set the risk reduction is the
  security score times 0.65, which is at most 0.65 and so below the cap of 0.75; for
  every category the reduction factor is the direct reduction plus the synergy bonus,
  which is at most 0.60 and so below the cap of 0.70. Removing both \<open>Math.min\<close> calls
  changes no output: the calculation without the caps returns the same result for every
  input.
\<close>

theorem caps_never_bind:
  "riskReduction_fraction inp = securityScore_fraction inp * Fin 0.65 \<and>
   securityScore_fraction inp * Fin 0.65 \<le> Fin 0.65 \<and>
   securityScore_fraction inp * Fin 0.65 < Fin 0.75 \<and>
   reductionFactor (adjust_category inp c) = directReduction inp c + synergyBonus inp \<and>
   directReduction inp c + synergyBonus inp \<le> Fin 0.60 \<and>
   directReduction inp c + synergyBonus inp < Fin 0.70 \<and>
   results_uncapped inp = results inp"
proof -
  have uncapped: "Math_min (directReduction inp k + synergyBonus inp) (Fin 0.70)
        = directReduction inp k + synergyBonus inp \<and>
      directReduction inp k + synergyBonus inp \<le> Fin 0.60 \<and>
      directReduction inp k + synergyBonus inp < Fin 0.70" for k
  proof -
    obtain d d' where d: "directReduction inp k = Fin d" "d \<le> d'" "d' \<le> 0.45"
      using more_controls_refl by (rule directReduction_mono)
    obtain s s' where s: "synergyBonus inp = Fin s" "s \<le> s'" "s' \<le> 0.15"
      using more_controls_refl by (rule synergyBonus_mono)
    have "d + s \<le> 0.60" using d s by simp
    then show ?thesis
      by (simp add: d(1) s(1))
  qed
  have r: "riskReduction_fraction inp = securityScore_fraction inp * Fin 0.65 \<and>
      securityScore_fraction inp * Fin 0.65 \<le> Fin 0.65 \<and>
      securityScore_fraction inp * Fin 0.65 < Fin 0.75"
    by (simp add: riskReduction_fraction_def securityScore_fraction_Fin)
  have "adjust_category_uncapped inp k = adjust_category inp k" for k
    using uncapped[of k] by (simp only: adjust_category_uncapped_def adjust_category_def)
  then have cat: "adjust_category_uncapped inp = adjust_category inp"
    by (rule ext)
  have rr: "riskReduction_uncapped inp = riskReduction_fraction inp"
    using r by (simp only: riskReduction_uncapped_def)
  have "results_uncapped inp = results inp"
    by (simp only: results_uncapped_def results_def scenarios_uncapped_def scenarios_of_def
        organizationFactors_uncapped_def organizationFactors_of_def totalCost_of_def
        adjustedCosts_def cat rr)
  moreover have "reductionFactor (adjust_category inp c) = directReduction inp c + synergyBonus inp"
    using uncapped[of c] by (simp add: adjust_category_def Let_def)
  ultimately show ?thesis
    using r uncapped[of c] by (simp only: simp_thms)
qed

section \<open>The total cost\<close>

lemma foldl_adjustedCost_mono:
  assumes "list_all (\<lambda>c. \<exists>x x'. adjustedCost (f c) = Fin x \<and> adjustedCost (g c) = Fin x' \<and>
                              0 \<le> x' \<and> x' \<le> x) cs"
    and "0 \<le> a'" "a' \<le> a"
  shows "\<exists>t t'. foldl (\<lambda>sum cat. sum + adjustedCost cat) (Fin a) (map f cs) = Fin t \<and>
                 foldl (\<lambda>sum cat. sum + adjustedCost cat) (Fin a') (map g cs) = Fin t' \<and>
                 0 \<le> t' \<and> t' \<le> t"
  using assms
proof (induction cs arbitrary: a a')
  case Nil
  then show ?case by simp
next
  case (Cons c cs)
  from Cons.prems(1) obtain x x' where x: "adjustedCost (f c) = Fin x"
    "adjustedCost (g c) = Fin x'" "0 \<le> x'" "x' \<le> x"
    and rest: "list_all (\<lambda>c. \<exists>x x'. adjustedCost (f c) = Fin x \<and> adjustedCost (g c) = Fin x' \<and>
                                   0 \<le> x' \<and> x' \<le> x) cs"
    by auto
  have "0 \<le> a' + x'" "a' + x' \<le> a + x"
    using x Cons.prems by auto
  from Cons.IH[OF rest this] show ?case
    by (simp add: x)
qed

lemma adjustedCost_PosInf:
  assumes "sizeFactor_of inp = PosInf" "baseCost c = Fin b" "0 < b"
  shows "adjustedCost (adjust_category inp c) = PosInf"
proof -
  obtain d d' where d: "directReduction inp c = Fin d"
    using more_controls_refl by (rule directReduction_mono)
  obtain s s' where s: "synergyBonus inp = Fin s"
    using more_controls_refl by (rule synergyBonus_mono)
  define x where "x = b * (1 - min (d + s) 0.7)"
  have x: "0 < x"
    using assms(3) by (simp add: x_def)
  have "baseCost c * (Fin 1 - Math_min (directReduction inp c + synergyBonus inp) (Fin 0.70)) = Fin x"
    by (simp add: assms(2) d s x_def)
  moreover have "Fin x * PosInf = PosInf"
    using x by (simp add: of_sign_def)
  ultimately show ?thesis
    by (simp add: adjust_category_def Let_def assms(1))
qed

lemma adjustedCost_NaN:
  assumes "sizeFactor_of inp = NaN"
  shows "adjustedCost (adjust_category inp c) = NaN"
  by (simp add: adjust_category_def Let_def assms)

lemma foldl_from_PosInf:
  "list_all (\<lambda>x. adjustedCost x = PosInf) xs \<Longrightarrow>
   foldl (\<lambda>sum cat. sum + adjustedCost cat) PosInf xs = PosInf"
  by (induction xs) simp_all

lemma foldl_from_NaN: "foldl (\<lambda>sum cat. sum + adjustedCost cat) NaN xs = NaN"
  by (induction xs) simp_all

lemma foldl_all_PosInf:
  "xs \<noteq> [] \<Longrightarrow> list_all (\<lambda>x. adjustedCost x = PosInf) xs \<Longrightarrow>
   foldl (\<lambda>sum cat. sum + adjustedCost cat) (Fin a) xs = PosInf"
  by (cases xs) (simp_all add: foldl_from_PosInf)

lemma foldl_all_NaN:
  "xs \<noteq> [] \<Longrightarrow> list_all (\<lambda>x. adjustedCost x = NaN) xs \<Longrightarrow>
   foldl (\<lambda>sum cat. sum + adjustedCost cat) (Fin a) xs = NaN"
  by (cases xs) (simp_all add: foldl_from_NaN)

lemma adjustedCosts_not_Nil: "adjustedCosts inp \<noteq> []"
  by (simp add: adjustedCosts_def COST_CATEGORIES_def)

lemma totalCost_of_PosInf:
  assumes "sizeFactor_of inp = PosInf"
  shows "totalCost_of inp = PosInf"
proof -
  have "list_all (\<lambda>c. adjustedCost (adjust_category inp c) = PosInf) COST_CATEGORIES"
    using COST_CATEGORIES_baseCost
  proof (rule list.pred_mono_strong)
    fix c :: item assume "\<exists>b. baseCost c = Fin b \<and> 0 < b"
    then show "adjustedCost (adjust_category inp c) = PosInf"
      using adjustedCost_PosInf[OF assms] by blast
  qed
  then have "list_all (\<lambda>x. adjustedCost x = PosInf) (adjustedCosts inp)"
    by (simp add: adjustedCosts_def list_all_iff)
  with adjustedCosts_not_Nil show ?thesis
    unfolding totalCost_of_def by (rule foldl_all_PosInf)
qed

lemma totalCost_of_NaN:
  assumes "sizeFactor_of inp = NaN"
  shows "totalCost_of inp = NaN"
proof -
  have "list_all (\<lambda>x. adjustedCost x = NaN) (adjustedCosts inp)"
    by (simp add: adjustedCosts_def list_all_iff adjustedCost_NaN[OF assms])
  with adjustedCosts_not_Nil show ?thesis
    unfolding totalCost_of_def by (rule foldl_all_NaN)
qed

lemma totalCost_of_mono:
  assumes mc: "more_controls inp inp'" and sf: "sizeFactor_of inp = Fin sf" "1 \<le> sf"
  obtains t t' where "totalCost_of inp = Fin t" "totalCost_of inp' = Fin t'" "0 \<le> t'" "t' \<le> t"
proof -
  have "list_all (\<lambda>c. \<exists>x x'. adjustedCost (adjust_category inp c) = Fin x \<and>
          adjustedCost (adjust_category inp' c) = Fin x' \<and> 0 \<le> x' \<and> x' \<le> x) COST_CATEGORIES"
    using COST_CATEGORIES_baseCost
  proof (rule list.pred_mono_strong)
    fix c assume "c \<in> set COST_CATEGORIES" "\<exists>b. baseCost c = Fin b \<and> 0 < b"
    then obtain b where b: "baseCost c = Fin b" "0 \<le> b" by auto
    from adjustedCost_mono[OF mc sf b]
    show "\<exists>x x'. adjustedCost (adjust_category inp c) = Fin x \<and>
          adjustedCost (adjust_category inp' c) = Fin x' \<and> 0 \<le> x' \<and> x' \<le> x"
      by metis
  qed
  from foldl_adjustedCost_mono[OF this, of 0 0] show ?thesis
    using that by (auto simp: totalCost_of_def adjustedCosts_def)
qed

lemma securityScore_mono_finite:
  assumes "more_controls inp inp'"
  obtains p p' where "Math_round (securityScore_fraction inp * Fin 100) = Fin p"
    "Math_round (securityScore_fraction inp' * Fin 100) = Fin p'" "p \<le> p'"
proof -
  have "\<exists>p. Math_round (securityScore_fraction k * Fin 100) = Fin p" for k
    by (simp add: securityScore_fraction_Fin)
  then obtain p p' where p: "Math_round (securityScore_fraction inp * Fin 100) = Fin p"
    "Math_round (securityScore_fraction inp' * Fin 100) = Fin p'"
    by metis
  with securityScore_mono[OF assms] have "p \<le> p'" by simp
  with p show ?thesis by (rule that)
qed

lemma no_worse_more_controls:
  assumes mc: "more_controls inp inp'"
  shows "no_worse inp inp'"
proof -
  obtain p p' where p: "Math_round (securityScore_fraction inp * Fin 100) = Fin p"
    "Math_round (securityScore_fraction inp' * Fin 100) = Fin p'" "p \<le> p'"
    using mc by (rule securityScore_mono_finite)
  have sf': "sizeFactor_of inp' = sizeFactor_of inp"
    using mc by (rule sizeFactor_of_more_controls)
  show ?thesis
  proof (cases rule: sizeFactor_of_cases[of inp])
    case (finite sf)
    obtain t t' where "totalCost_of inp = Fin t" "totalCost_of inp' = Fin t'" "t' \<le> t"
      using mc finite by (rule totalCost_of_mono)
    then show ?thesis
      using p by (simp add: no_worse_def results_def)
  next
    case infinite
    then have "totalCost_of inp = PosInf" "totalCost_of inp' = PosInf"
      using sf' by (simp_all add: totalCost_of_PosInf)
    then show ?thesis
      using p by (simp add: no_worse_def results_def)
  next
    case nan
    then have "totalCost_of inp = NaN" "totalCost_of inp' = NaN"
      using sf' by (simp_all add: totalCost_of_NaN)
    then show ?thesis
      using p by (simp add: no_worse_def results_def)
  qed
qed

lemma totalCost_of_NaN_iff: "totalCost_of inp = NaN \<longleftrightarrow> employees inp = NaN"
proof (cases "employees inp")
  case (Fin e)
  then obtain sf where sf: "sizeFactor_of inp = Fin sf" "1 \<le> sf"
    by (rule sizeFactor_of_finite)
  obtain t t' where "totalCost_of inp = Fin t"
    using more_controls_refl sf by (rule totalCost_of_mono)
  then show ?thesis using Fin by simp
next
  case PosInf
  then have "sizeFactor_of inp = PosInf"
    by (simp add: sizeFactor_of_def of_sign_def)
  then show ?thesis using PosInf by (simp add: totalCost_of_PosInf)
next
  case NegInf
  have "log 10 (1 / 10 :: real) = - 1"
    by (simp add: log_divide)
  then have sf: "sizeFactor_of inp = Fin 1" "(1::real) \<le> 1"
    using NegInf by (simp_all add: sizeFactor_of_def)
  obtain t t' where "totalCost_of inp = Fin t"
    using more_controls_refl sf by (rule totalCost_of_mono)
  then show ?thesis using NegInf by simp
next
  case NaN
  then have "sizeFactor_of inp = NaN"
    by (simp add: sizeFactor_of_def)
  then show ?thesis using NaN by (simp add: totalCost_of_NaN)
qed

text \<open>
  C1. For every organisation profile and every setting of the controls, switching any
  single control from off to on, with the profile and the other four controls
  unchanged, never increases \<open>totalCost\<close> and never decreases \<open>securityScore\<close>.
  One conjunct for each of the five controls. Unless \<open>employees\<close> is NaN, the totals
  are numbers and the new total is at most the old one.
\<close>

theorem enabling_control_monotone:
  "no_worse (inp\<lparr>backupsIsolated := False\<rparr>) (inp\<lparr>backupsIsolated := True\<rparr>) \<and>
   no_worse (inp\<lparr>mfaEnabled := False\<rparr>) (inp\<lparr>mfaEnabled := True\<rparr>) \<and>
   no_worse (inp\<lparr>phishingTraining := False\<rparr>) (inp\<lparr>phishingTraining := True\<rparr>) \<and>
   no_worse (inp\<lparr>vendorReviews := False\<rparr>) (inp\<lparr>vendorReviews := True\<rparr>) \<and>
   no_worse (inp\<lparr>irTabletop := False\<rparr>) (inp\<lparr>irTabletop := True\<rparr>)"
  by (intro conjI no_worse_more_controls) (simp_all add: more_controls_def)

section \<open>The percentile generator\<close>

text \<open>
  C9. Whenever the adjusted base is a finite number \<open>a \<ge> 0\<close>, the variance branch
  \<open>adjustedBase - baseVariance * 1.5\<close> is \<open>0.1 * a\<close> and never exceeds the floor
  branch \<open>adjustedBase * 0.15\<close>; the maximum of the two is the floor branch, and the
  5th percentile is \<open>0.15 * a\<close> rounded.
\<close>

theorem fifth_percentile_floor:
  assumes "adjustedBase bc f = Fin a" "0 \<le> a"
  shows "adjustedBase bc f - baseVariance bc f * Fin 1.5 = Fin (0.1 * a) \<and>
         adjustedBase bc f - baseVariance bc f * Fin 1.5 \<le> adjustedBase bc f * Fin 0.15 \<and>
         Math_max (adjustedBase bc f * Fin 0.15) (adjustedBase bc f - baseVariance bc f * Fin 1.5)
           = adjustedBase bc f * Fin 0.15 \<and>
         p5th (generateRealisticPercentiles bc f) = Math_round (Fin (0.15 * a))"
  using assms(2)
  by (simp add: assms(1) baseVariance_def generateRealisticPercentiles_def max_def mult.commute)

theorem fifth_percentile_floor_witness:
  "adjustedBase (Fin 300000) \<lparr>sizeFactor = Fin 1, revenueFactor = Fin 1, riskReduction' = Fin 0.65\<rparr>
     = Fin 105000 \<and> (0::real) \<le> 105000 \<and>
   p5th (generateRealisticPercentiles (Fin 300000)
          \<lparr>sizeFactor = Fin 1, revenueFactor = Fin 1, riskReduction' = Fin 0.65\<rparr>) = Fin 15750"
proof -
  have a: "adjustedBase (Fin 300000)
             \<lparr>sizeFactor = Fin 1, revenueFactor = Fin 1, riskReduction' = Fin 0.65\<rparr> = Fin 105000"
    by (simp add: adjustedBase_def)
  have "\<lfloor>(31501::real) / 2\<rfloor> = 15750" by linarith
  then show ?thesis
    using fifth_percentile_floor[OF a] a by simp
qed

lemma generateRealisticPercentiles_ordered:
  assumes "adjustedBase bc f = Fin a" "0 \<le> a"
  shows "percentiles_ordered (generateRealisticPercentiles bc f)"
    and "finite_percentiles (generateRealisticPercentiles bc f)"
proof -
  have m: "max (a * 0.15) (a - a * 0.6 * 1.5) = a * 0.15"
    using assms(2) by (simp add: max_def)
  have "\<lfloor>a * 0.15 + 1 / 2\<rfloor> \<le> \<lfloor>a * 0.55 + 1 / 2\<rfloor>"
    "\<lfloor>a * 0.55 + 1 / 2\<rfloor> \<le> \<lfloor>a + 1 / 2\<rfloor>"
    "\<lfloor>a + 1 / 2\<rfloor> \<le> \<lfloor>a * 1.65 + 1 / 2\<rfloor>"
    "\<lfloor>a * 1.65 + 1 / 2\<rfloor> \<le> \<lfloor>a * 1.8 * 2.2 + 1 / 2\<rfloor>"
    "0 \<le> \<lfloor>a * 0.15 + 1 / 2\<rfloor>"
    using assms(2) by (simp_all add: floor_mono)
  with m show "percentiles_ordered (generateRealisticPercentiles bc f)"
    by (simp add: percentiles_ordered_def generateRealisticPercentiles_def assms(1)
        baseVariance_def longTailFactor_def)
  show "finite_percentiles (generateRealisticPercentiles bc f)"
    by (simp add: finite_percentiles_def generateRealisticPercentiles_def assms(1)
        baseVariance_def longTailFactor_def)
qed

lemma adjustedBase_of_factors:
  assumes sf: "sizeFactor_of inp = Fin sf" "1 \<le> sf"
    and rf: "revenueFactor_of inp = Fin rf" "1 \<le> rf" and b: "0 \<le> b"
  obtains a where "adjustedBase (Fin b) (organizationFactors_of inp) = Fin a" "0 \<le> a"
proof -
  obtain rr where rr: "riskReduction_fraction inp = Fin rr" "0 \<le> rr" "rr \<le> 0.65"
    by (rule riskReduction_fraction_Fin)
  show ?thesis
  proof (rule that)
    show "adjustedBase (Fin b) (organizationFactors_of inp) = Fin (b * sf * rf * (1 - rr))"
      by (simp add: adjustedBase_def organizationFactors_of_def sf rf rr)
    show "0 \<le> b * sf * rf * (1 - rr)"
      using b sf rf rr by simp
  qed
qed

lemma THREAT_SCENARIOS_baseCost:
  "list_all (\<lambda>s. \<exists>b. baseCost s = Fin b \<and> 0 < b) THREAT_SCENARIOS"
  by (simp add: THREAT_SCENARIOS_def)

lemma scenarios_of_factors:
  assumes sf: "sizeFactor_of inp = Fin sf" "1 \<le> sf"
    and rf: "revenueFactor_of inp = Fin rf" "1 \<le> rf"
  shows "list_all (\<lambda>s. percentiles_ordered (percentiles s) \<and> finite_percentiles (percentiles s))
           (scenarios_of inp)"
proof -
  have "list_all (\<lambda>s.
          percentiles_ordered (generateRealisticPercentiles (baseCost s) (organizationFactors_of inp)) \<and>
          finite_percentiles (generateRealisticPercentiles (baseCost s) (organizationFactors_of inp)))
        THREAT_SCENARIOS"
    using THREAT_SCENARIOS_baseCost
  proof (rule list.pred_mono_strong)
    fix s :: threat_scenario assume "\<exists>b. baseCost s = Fin b \<and> 0 < b"
    then obtain b where b: "baseCost s = Fin b" "0 \<le> b" by auto
    obtain a where "adjustedBase (Fin b) (organizationFactors_of inp) = Fin a" "0 \<le> a"
      using sf rf b(2) by (rule adjustedBase_of_factors)
    then show
      "percentiles_ordered (generateRealisticPercentiles (baseCost s) (organizationFactors_of inp)) \<and>
       finite_percentiles (generateRealisticPercentiles (baseCost s) (organizationFactors_of inp))"
      using generateRealisticPercentiles_ordered b(1) by simp
  qed
  then show ?thesis
    by (simp add: scenarios_of_def list_all_iff)
qed

lemma scenarios_of_finite:
  assumes "employees inp = Fin e" "revenue inp = Fin r"
  shows "list_all (\<lambda>s. percentiles_ordered (percentiles s) \<and> finite_percentiles (percentiles s))
           (scenarios_of inp)"
proof -
  obtain sf where sf: "sizeFactor_of inp = Fin sf" "1 \<le> sf"
    using assms(1) by (rule sizeFactor_of_finite)
  obtain rf where rf: "revenueFactor_of inp = Fin rf" "1 \<le> rf"
    using assms(2) by (rule revenueFactor_of_finite)
  from sf rf show ?thesis by (rule scenarios_of_factors)
qed

text \<open>With a finite size factor and a revenue factor that is not, the adjusted base of a
  positive base cost is not finite, and neither is its rounding, the median.\<close>

lemma Median_not_finite:
  assumes sf: "sizeFactor_of inp = Fin sf" "1 \<le> sf"
    and rf: "\<not> is_finite (revenueFactor_of inp)" and b: "0 < b"
  shows "\<not> is_finite (Median (generateRealisticPercentiles (Fin b) (organizationFactors_of inp)))"
proof -
  obtain rr where rr: "riskReduction_fraction inp = Fin rr" "0 \<le> rr" "rr \<le> 0.65"
    by (rule riskReduction_fraction_Fin)
  have pos: "0 < b * sf" "0 < 1 - rr"
    using b sf rr by simp_all
  have base: "adjustedBase (Fin b) (organizationFactors_of inp)
                = Fin (b * sf) * revenueFactor_of inp * Fin (1 - rr)"
    by (simp add: adjustedBase_def organizationFactors_of_def sf rr)
  show ?thesis
  proof (cases rule: revenueFactor_of_cases[of inp])
    case (finite rf')
    with rf show ?thesis by simp
  next
    case infinite
    have "Fin (b * sf) * PosInf * Fin (1 - rr) = PosInf"
      by (simp only: Fin_times_PosInf[OF pos(1)] PosInf_times_Fin[OF pos(2)])
    then show ?thesis
      by (simp add: generateRealisticPercentiles_def base infinite(1))
  next
    case nan
    then show ?thesis
      by (simp add: generateRealisticPercentiles_def base)
  qed
qed

lemma scenarios_of_not_finite:
  assumes sf: "sizeFactor_of inp = Fin sf" "1 \<le> sf"
    and rf: "\<not> is_finite (revenueFactor_of inp)"
  shows "\<not> list_all (\<lambda>s. finite_percentiles (percentiles s)) (scenarios_of inp)"
proof -
  have "\<not> is_finite (Median (generateRealisticPercentiles (Fin 300000) (organizationFactors_of inp)))"
    using sf rf by (rule Median_not_finite) simp
  then show ?thesis
    by (simp add: scenarios_of_def THREAT_SCENARIOS_def finite_percentiles_def)
qed

text \<open>
  C2. For every profile whose employees and revenue are finite numbers (every in-range
  input is one) and every control set, the assessment returns a result in which each of
  the three scenarios of the catalog has percentiles with
  \<open>0 \<le> 5th \<le> 25th \<le> Median \<le> 75th \<le> 95th\<close>, and each of the eleven entries of
  the cost breakdown has an adjusted cost of at least 0.
\<close>

theorem percentiles_ordered_costs_nonneg:
  assumes "employees inp = Fin e" "revenue inp = Fin r"
  shows "case results inp of
           None \<Rightarrow> False
         | Some res \<Rightarrow>
             map name (scenarios res) = [''Phishing'', ''Ransomware'', ''Vendor Breach''] \<and>
             list_all (\<lambda>s. percentiles_ordered (percentiles s)) (scenarios res) \<and>
             length (costBreakdown res) = 11 \<and>
             list_all (\<lambda>c. Fin 0 \<le> adjustedCost c) (costBreakdown res)"
proof -
  have "list_all (\<lambda>s. percentiles_ordered (percentiles s)) (scenarios_of inp)"
    using scenarios_of_finite[OF assms] by (simp add: list_all_iff)
  moreover have "list_all (\<lambda>c. Fin 0 \<le> adjustedCost c) (adjustedCosts inp)"
    using adjustedCosts_finite[OF assms(1)] by (simp add: list_all_iff)
  moreover have "map name (scenarios_of inp) = [''Phishing'', ''Ransomware'', ''Vendor Breach'']"
    by (simp add: scenarios_of_def THREAT_SCENARIOS_def)
  moreover have "length (adjustedCosts inp) = 11"
    by (simp add: adjustedCosts_def COST_CATEGORIES_def)
  ultimately show ?thesis
    by (simp add: results_def)
qed

theorem percentiles_ordered_costs_nonneg_witness:
  "employees initial_inputs = Fin 250 \<and> revenue initial_inputs = Fin 50000000 \<and>
   (case results initial_inputs of
      None \<Rightarrow> False
    | Some res \<Rightarrow>
        map name (scenarios res) = [''Phishing'', ''Ransomware'', ''Vendor Breach''] \<and>
        list_all (\<lambda>s. percentiles_ordered (percentiles s)) (scenarios res) \<and>
        length (costBreakdown res) = 11 \<and>
        list_all (\<lambda>c. Fin 0 \<le> adjustedCost c) (costBreakdown res))"
proof -
  have e: "employees initial_inputs = Fin 250" and r: "revenue initial_inputs = Fin 50000000"
    by (simp_all add: initial_inputs_def)
  from percentiles_ordered_costs_nonneg[OF e r] e r show ?thesis
    by (simp only: simp_thms)
qed

section \<open>Non-finite inputs\<close>

text \<open>
  C6, the claim refuted. In the example input with \<open>employees\<close> replaced by NaN the
  size factor is NaN, a non-finite intermediate value; the assessment nevertheless
  returns a result rather than the failure value, and the total cost of that result
  is NaN.
\<close>

theorem nan_employees_counterexample:
  "sizeFactor_of (initial_inputs\<lparr>employees := NaN\<rparr>) = NaN \<and>
   results (initial_inputs\<lparr>employees := NaN\<rparr>) \<noteq> None \<and>
   map_option totalCost (results (initial_inputs\<lparr>employees := NaN\<rparr>)) = Some NaN"
  by (simp add: results_def totalCost_of_def adjustedCosts_def adjust_category_def
      COST_CATEGORIES_def sizeFactor_of_def initial_inputs_def Let_def)

text \<open>
  C6, as amended. A non-finite intermediate value does not make the assessment fail.
  For every input a result is returned, and its numbers (the total cost, both
  percentages, the five percentiles of every scenario, the reduction factor and adjusted
  cost of every category) are all finite exactly when the size factor and the revenue
  factor are finite. The size factor is finite exactly when \<open>employees\<close> is neither NaN
  nor \<open>+Infinity\<close>, and the revenue factor exactly when \<open>revenue\<close> is neither: a
  \<open>-Infinity\<close> is floored by \<open>Math.max\<close>, and \<open>insurance\<close> is not read. So
  whenever a factor is NaN or infinite, the result is returned with a number in it that
  is not finite.
\<close>

theorem non_finite_values_are_returned:
  "case results inp of
     None \<Rightarrow> False
   | Some res \<Rightarrow>
       (finite_result res \<longleftrightarrow>
          is_finite (sizeFactor_of inp) \<and> is_finite (revenueFactor_of inp)) \<and>
       (is_finite (sizeFactor_of inp) \<longleftrightarrow> employees inp \<noteq> NaN \<and> employees inp \<noteq> PosInf) \<and>
       (is_finite (revenueFactor_of inp) \<longleftrightarrow> revenue inp \<noteq> NaN \<and> revenue inp \<noteq> PosInf)"
proof -
  let ?res = "\<lparr>scenarios = scenarios_of inp, costBreakdown = adjustedCosts inp,
           totalCost = totalCost_of inp,
           securityScore = Math_round (securityScore_fraction inp * Fin 100),
           riskReduction = Math_round (riskReduction_fraction inp * Fin 100)\<rparr>"
  have main: "finite_result ?res \<longleftrightarrow>
      is_finite (sizeFactor_of inp) \<and> is_finite (revenueFactor_of inp)"
  proof (cases rule: sizeFactor_of_cases[of inp])
    case (finite sf)
    obtain t t' where t: "totalCost_of inp = Fin t"
      using more_controls_refl finite by (rule totalCost_of_mono)
    obtain rr where rr: "riskReduction_fraction inp = Fin rr"
      by (rule riskReduction_fraction_Fin)
    have costs: "list_all (\<lambda>c. is_finite (reductionFactor c) \<and> is_finite (adjustedCost c))
                   (adjustedCosts inp)"
      using adjustedCosts_of_factor[OF finite] by (simp add: list_all_iff)
    have rest: "finite_result ?res \<longleftrightarrow>
        list_all (\<lambda>s. finite_percentiles (percentiles s)) (scenarios_of inp)"
      using costs by (simp add: finite_result_def t rr securityScore_fraction_Fin)
    show ?thesis
    proof (cases "is_finite (revenueFactor_of inp)")
      case True
      then obtain rf where rf: "revenueFactor_of inp = Fin rf" "1 \<le> rf"
        by (cases rule: revenueFactor_of_cases[of inp]) simp_all
      have "list_all (\<lambda>s. finite_percentiles (percentiles s)) (scenarios_of inp)"
        using scenarios_of_factors[OF finite rf] by (simp add: list_all_iff)
      then show ?thesis
        using rest True finite by simp
    next
      case False
      then show ?thesis
        using rest scenarios_of_not_finite[OF finite False] by simp
    qed
  next
    case infinite
    then have "totalCost_of inp = PosInf" by (rule totalCost_of_PosInf)
    then show ?thesis
      using infinite by (simp add: finite_result_def)
  next
    case nan
    then have "totalCost_of inp = NaN" by (rule totalCost_of_NaN)
    then show ?thesis
      using nan by (simp add: finite_result_def)
  qed
  show ?thesis
    using main sizeFactor_of_is_finite[of inp] revenueFactor_of_is_finite[of inp]
    by (simp only: results_def option.case simp_thms)
qed

section \<open>The worked example\<close>

text \<open>
  The decimal logarithm of 2 lies between two rationals, each bound checked by
  comparing integer powers. The logarithms of the example, \<open>log 10 (5 / 2)\<close> and
  \<open>log 10 5\<close>, are written in terms of it.
\<close>

lemma log_le_of_power:
  fixes x y :: real
  assumes "x ^ p \<le> y ^ q" "0 < x" "0 < y"
  shows "real p * log 10 x \<le> real q * log 10 y"
proof -
  have "log 10 (x ^ p) \<le> log 10 (y ^ q)"
    using assms by (subst log_le_cancel_iff) simp_all
  then show ?thesis
    using assms(2,3) by (simp only: log_nat_power)
qed

lemma log10_2_lower: "351 / 1166 \<le> log 10 (2::real)"
proof -
  have "(10::real) ^ 351 \<le> 2 ^ 1166" by simp
  then have "real 351 * log 10 (10::real) \<le> real 1166 * log 10 2"
    by (rule log_le_of_power) simp_all
  then show ?thesis by simp
qed

lemma log10_2_upper: "log 10 (2::real) \<le> 146 / 485"
proof -
  have "(2::real) ^ 485 \<le> 10 ^ 146" by simp
  then have "real 485 * log 10 (2::real) \<le> real 146 * log 10 10"
    by (rule log_le_of_power) simp_all
  then show ?thesis by simp
qed

lemma log10_5_2: "log 10 (5 / 2 :: real) = 1 - 2 * log 10 2"
proof -
  have "log 10 (5 / 2 :: real) = log 10 (10 / (2 * 2))" by simp
  also have "\<dots> = log 10 10 - log 10 ((2::real) * 2)"
    by (subst log_divide) simp_all
  also have "log 10 ((2::real) * 2) = log 10 2 + log 10 2"
    by (subst log_mult) simp_all
  finally show ?thesis by simp
qed

lemma log10_5: "log 10 (5 :: real) = 1 - log 10 2"
proof -
  have "log 10 (5 :: real) = log 10 (10 / 2)" by simp
  also have "\<dots> = log 10 10 - log 10 (2::real)"
    by (subst log_divide) simp_all
  finally show ?thesis by simp
qed

lemma initial_sizeFactor: "sizeFactor_of initial_inputs = Fin (6 / 5 - 2 / 5 * log 10 2)"
proof -
  have "0 \<le> log 10 (5 / 2 :: real)" by simp
  then have "max 1 (log 10 (5 / 2 :: real) * 0.2 + 1) = log 10 (5 / 2) * 0.2 + 1"
    by simp
  then have "sizeFactor_of initial_inputs = Fin (log 10 (5 / 2) * 0.2 + 1)"
    by (simp add: sizeFactor_of_def initial_inputs_def)
  then show ?thesis
    by (simp add: log10_5_2 algebra_simps)
qed

lemma initial_revenueFactor: "revenueFactor_of initial_inputs = Fin (23 / 20 - 3 / 20 * log 10 2)"
proof -
  have "0 \<le> log 10 (5 :: real)" by simp
  then have "max 1 (log 10 (5 :: real) * 0.15 + 1) = log 10 5 * 0.15 + 1"
    by simp
  then have "revenueFactor_of initial_inputs = Fin (log 10 5 * 0.15 + 1)"
    by (simp add: revenueFactor_of_def initial_inputs_def)
  then show ?thesis
    by (simp add: log10_5 algebra_simps)
qed

lemma initial_riskReduction: "riskReduction_fraction initial_inputs = Fin 0.65"
  by (simp add: riskReduction_fraction_def securityScore_fraction_Fin initial_inputs_def)

lemma initial_adjustedBase:
  obtains a where "adjustedBase (Fin 300000) (organizationFactors_of initial_inputs) = Fin a"
    "125241.62 \<le> a" "a \<le> 125241.75"
proof -
  define l :: real where "l = log 10 2"
  have l: "351 / 1166 \<le> l" "l \<le> 146 / 485"
    using log10_2_lower log10_2_upper by (simp_all add: l_def)
  let ?sf = "6 / 5 - 2 / 5 * l" and ?rf = "23 / 20 - 3 / 20 * l"
  have sf: "1.0795876 \<le> ?sf" "?sf \<le> 1.0795884" using l by simp_all
  have rf: "1.10484535 \<le> ?rf" "?rf \<le> 1.10484563" using l by simp_all
  have lo: "1.0795876 * 1.10484535 \<le> ?sf * ?rf"
    using sf rf by (intro mult_mono) simp_all
  have hi: "?sf * ?rf \<le> 1.0795884 * 1.10484563"
    using sf rf by (intro mult_mono) simp_all
  show ?thesis
  proof (rule that)
    show "adjustedBase (Fin 300000) (organizationFactors_of initial_inputs) = Fin (105000 * (?sf * ?rf))"
      by (simp add: adjustedBase_def organizationFactors_of_def initial_sizeFactor
          initial_revenueFactor initial_riskReduction l_def)
    show "125241.62 \<le> 105000 * (?sf * ?rf)" using lo by simp
    show "105000 * (?sf * ?rf) \<le> 125241.75" using hi by simp
  qed
qed

lemma initial_phishing_percentiles:
  "generateRealisticPercentiles (Fin 300000) (organizationFactors_of initial_inputs) =
     \<lparr>p5th = Fin 18786, p25th = Fin 68883, Median = Fin 125242, p75th = Fin 206649,
      p95th = Fin 495957\<rparr>"
proof -
  obtain a where a: "adjustedBase (Fin 300000) (organizationFactors_of initial_inputs) = Fin a"
    "125241.62 \<le> a" "a \<le> 125241.75"
    by (rule initial_adjustedBase)
  have m: "max (a * 0.15) (a - a * 0.6 * 1.5) = a * 0.15"
    using a(2) by (simp add: max_def)
  have "\<lfloor>a * 0.15 + 1 / 2\<rfloor> = 18786" using a(2,3) by (intro round_eqI) simp_all
  moreover have "\<lfloor>a * 0.55 + 1 / 2\<rfloor> = 68883" using a(2,3) by (intro round_eqI) simp_all
  moreover have "\<lfloor>a + 1 / 2\<rfloor> = 125242" using a(2,3) by (intro round_eqI) simp_all
  moreover have "\<lfloor>a * 1.65 + 1 / 2\<rfloor> = 206649" using a(2,3) by (intro round_eqI) simp_all
  moreover have "\<lfloor>a * 1.8 * 2.2 + 1 / 2\<rfloor> = 495957" using a(2,3) by (intro round_eqI) simp_all
  ultimately show ?thesis
    using m by (simp add: generateRealisticPercentiles_def a(1) baseVariance_def longTailFactor_def)
qed


lemma initial_scenario_percentiles:
  "scenario_percentiles initial_inputs ''Phishing'' =
     Some (generateRealisticPercentiles (Fin 300000) (organizationFactors_of initial_inputs))"
  by (simp add: scenario_percentiles_def results_def scenarios_of_def THREAT_SCENARIOS_def)

text \<open>
  C3, the claim refuted. For the example input the percentiles of the Phishing scenario
  are not the listed values 18,787, 68,885, 125,246, 206,656 and 495,974, not even up
  to one currency unit each.
\<close>

theorem example_percentiles_counterexample:
  "map_option spec_example_percentiles (scenario_percentiles initial_inputs ''Phishing'') = Some False"
  by (simp add: initial_scenario_percentiles initial_phishing_percentiles
      spec_example_percentiles_def within_rounding_def)

text \<open>
  C3, as amended. For the profile with 250 employees, a revenue of 50,000,000 and an
  insurance limit of 1,000,000, with all five controls on, the result has
  \<open>securityScore = 100\<close> and \<open>riskReduction = 65\<close>; the size factor is 1.0796 and
  the revenue factor 1.1048 to four decimals; and the Phishing scenario, of base cost
  300,000, gets the percentiles 5th = 18,786, 25th = 68,883, Median = 125,242,
  75th = 206,649 and 95th = 495,957.
\<close>

theorem example_assessment:
  "(case results initial_inputs of
      None \<Rightarrow> False
    | Some res \<Rightarrow> securityScore res = Fin 100 \<and> riskReduction res = Fin 65) \<and>
   Fin 1.07955 \<le> sizeFactor_of initial_inputs \<and> sizeFactor_of initial_inputs < Fin 1.07965 \<and>
   Fin 1.10475 \<le> revenueFactor_of initial_inputs \<and> revenueFactor_of initial_inputs < Fin 1.10485 \<and>
   map_option baseCost (find (\<lambda>s. name s = ''Phishing'') THREAT_SCENARIOS) = Some (Fin 300000) \<and>
   scenario_percentiles initial_inputs ''Phishing'' =
     Some \<lparr>p5th = Fin 18786, p25th = Fin 68883, Median = Fin 125242, p75th = Fin 206649,
           p95th = Fin 495957\<rparr>"
proof -
  have l: "351 / 1166 \<le> log 10 (2::real)" "log 10 (2::real) \<le> 146 / 485"
    using log10_2_lower log10_2_upper by simp_all
  have score: "securityScore_fraction initial_inputs = Fin 1"
    by (simp add: securityScore_fraction_Fin initial_inputs_def)
  have "\<lfloor>(100::real) + 1 / 2\<rfloor> = 100" "\<lfloor>(65::real) + 1 / 2\<rfloor> = 65"
    by linarith+
  then have pct: "Math_round (securityScore_fraction initial_inputs * Fin 100) = Fin 100"
    "Math_round (riskReduction_fraction initial_inputs * Fin 100) = Fin 65"
    by (simp_all add: score initial_riskReduction)
  have sf: "Fin 1.07955 \<le> sizeFactor_of initial_inputs" "sizeFactor_of initial_inputs < Fin 1.07965"
    using l by (simp_all add: initial_sizeFactor)
  have rf: "Fin 1.10475 \<le> revenueFactor_of initial_inputs"
    "revenueFactor_of initial_inputs < Fin 1.10485"
    using l by (simp_all add: initial_revenueFactor)
  have bc: "map_option baseCost (find (\<lambda>s. name s = ''Phishing'') THREAT_SCENARIOS) = Some (Fin 300000)"
    by (simp add: THREAT_SCENARIOS_def)
  show ?thesis
    using pct sf rf bc
    by (simp only: results_def option.case result.simps initial_scenario_percentiles
        initial_phishing_percentiles simp_thms)
qed

section \<open>Input validation\<close>

lemma dom_INPUT_LIMITS: "dom INPUT_LIMITS = {''employees'', ''revenue'', ''insurance''}"
  by (auto simp: INPUT_LIMITS_def)

lemma INPUT_LIMITS_cases:
  assumes "INPUT_LIMITS field = Some l"
  obtains lo hi where "l = \<lparr>min_limit = Fin lo, max_limit = Fin hi\<rparr>"
  using assms by (auto simp: INPUT_LIMITS_def split: if_splits)

lemma out_of_range_iff:
  "(v < Fin lo \<or> Fin hi < v) \<longleftrightarrow> \<not> (v = NaN \<or> (Fin lo \<le> v \<and> v \<le> Fin hi))"
  by (cases v) auto

text \<open>
  C7, the claim refuted. NaN is a number that lies in no range, yet the validator
  accepts it for the field \<open>employees\<close>, whose range is 1 to 1,000,000, and removes
  the error recorded for that field: both comparisons \<open>value < min\<close> and
  \<open>value > max\<close> are false for NaN.
\<close>

theorem validateInput_NaN_counterexample:
  "INPUT_LIMITS ''employees'' = Some \<lparr>min_limit = Fin 1, max_limit = Fin 1000000\<rparr> \<and>
   \<not> (Fin 1 \<le> NaN \<and> NaN \<le> Fin 1000000) \<and>
   validateInput sample_toLocaleString ''employees'' NaN [''employees'' \<mapsto> ''old''] =
     (True, Map.empty)"
  by (simp add: validateInput_def INPUT_LIMITS_def)

text \<open>
  C7, as amended. For a configured field with limits \<open>l\<close> and every numeric value,
  the validator accepts exactly when \<open>min \<le> value \<le> max\<close> or the value is NaN. On
  rejection it returns \<open>False\<close> and stores the bound message under the name of the
  field; on acceptance it returns \<open>True\<close> and removes the entry of that field. In both
  cases the entries of all other fields stay as they were, and the validator always
  returns.
\<close>

theorem validateInput_verdict:
  assumes "INPUT_LIMITS field = Some l"
  shows "validateInput toLocaleString field v prev =
           (if v = NaN \<or> (min_limit l \<le> v \<and> v \<le> max_limit l)
            then (True, prev(field := None))
            else (False,
                  prev(field \<mapsto> ''Value must be between '' @ toLocaleString (min_limit l)
                                   @ '' and '' @ toLocaleString (max_limit l))))"
proof -
  obtain lo hi where l: "l = \<lparr>min_limit = Fin lo, max_limit = Fin hi\<rparr>"
    using assms(1) by (rule INPUT_LIMITS_cases)
  show ?thesis
    using out_of_range_iff[of v lo hi] by (simp add: validateInput_def assms(1) l)
qed

theorem validateInput_verdict_witness:
  "INPUT_LIMITS ''employees'' = Some \<lparr>min_limit = Fin 1, max_limit = Fin 1000000\<rparr> \<and>
   validateInput sample_toLocaleString ''employees'' (Fin 0) [''revenue'' \<mapsto> ''old''] =
     (False, [''revenue'' \<mapsto> ''old'', ''employees'' \<mapsto> ''Value must be between n and n'']) \<and>
   validateInput sample_toLocaleString ''employees'' (Fin 250)
       [''revenue'' \<mapsto> ''old'', ''employees'' \<mapsto> ''Value must be between n and n''] =
     (True, [''revenue'' \<mapsto> ''old''])"
proof -
  have l: "INPUT_LIMITS ''employees'' = Some \<lparr>min_limit = Fin 1, max_limit = Fin 1000000\<rparr>"
    by (simp add: INPUT_LIMITS_def)
  have "[''revenue'' \<mapsto> ''old'', ''employees'' \<mapsto> ''Value must be between n and n''](''employees'' := None)
      = [''revenue'' \<mapsto> ''old'']"
    by (rule ext) simp
  then show ?thesis
    using validateInput_verdict[OF l, of sample_toLocaleString "Fin 0" "[''revenue'' \<mapsto> ''old'']"]
      validateInput_verdict[OF l, of sample_toLocaleString "Fin 250"
        "[''revenue'' \<mapsto> ''old'', ''employees'' \<mapsto> ''Value must be between n and n'']"] l
    by (simp add: sample_toLocaleString_def)
qed

section \<open>The signup webhook\<close>



end
